theory Spec2Isabelle
  imports Main
begin

section \<open>JavaScript values and \<open>JSON.stringify\<close>\<close>

text \<open>
  Parameters of a query are arbitrary JavaScript values (\<open>unknown\<close> in the source).
  An object is its identity (the first argument of \<open>JObject\<close> and \<open>JArray\<close>: two
  objects are the same object when their identities agree, which is what \<open>===\<close>
  compares) and its list of own enumerable string-keyed properties in enumeration order
  (insertion order for the non-index keys used here), each name once. An object graph
  that refers back to one of its own ancestors is written with \<open>JCycle n\<close>, the back edge
  to the \<open>n\<close>-th enclosing object or array; sharing without a cycle is a tree.
  \<open>JNumber n\<close> is the integer-valued number whose shortest decimal digits are those of
  \<open>n\<close>; numbers with a fraction, \<open>NaN\<close> and the infinities are not modelled.
\<close>

datatype jsval =
    JUndefined
  | JNull
  | JBool bool
  | JNumber int
  | JString string
  | JBigInt int
  | JArray nat "jsval list"
  | JObject nat "(string \<times> jsval) list"
  | JCycle nat

datatype js_error = TypeError string

datatype js_type = TUndefined | TObject | TBoolean | TNumber | TString | TBigint

fun typeof :: "jsval \<Rightarrow> js_type" where
  "typeof JUndefined = TUndefined"
| "typeof JNull = TObject"
| "typeof (JBool _) = TBoolean"
| "typeof (JNumber _) = TNumber"
| "typeof (JString _) = TString"
| "typeof (JBigInt _) = TBigint"
| "typeof (JArray _ _) = TObject"
| "typeof (JObject _ _) = TObject"
| "typeof (JCycle _) = TObject"

definition digit_char :: "nat \<Rightarrow> char" where
  "digit_char d = ''0123456789abcdef'' ! d"

fun show_nat :: "nat \<Rightarrow> string" where
  "show_nat n = (if n < 10 then [digit_char n] else show_nat (n div 10) @ [digit_char (n mod 10)])"

text \<open>
  \<open>Number::toString\<close> on an integer-valued number: below \<open>10^21\<close> the decimal digits,
  from \<open>10^21\<close> on the exponent form (\<open>1e+21\<close>, \<open>1.5e+21\<close>).
\<close>

definition strip_trailing_zeros :: "string \<Rightarrow> string" where
  "strip_trailing_zeros ds = rev (dropWhile (\<lambda>c. c = CHR ''0'') (rev ds))"

definition show_magnitude :: "nat \<Rightarrow> string" where
  "show_magnitude n =
     (if n < 10 ^ 21 then show_nat n
      else (case strip_trailing_zeros (show_nat n) of
              [] \<Rightarrow> []
            | d # rest \<Rightarrow>
                (d # (if rest = [] then [] else CHR ''.'' # rest)) @ ''e+'' @
                show_nat (length (show_nat n) - 1)))"

definition show_int :: "int \<Rightarrow> string" where
  "show_int i = (if i < 0 then CHR ''-'' # show_magnitude (nat (- i)) else show_magnitude (nat i))"

text \<open>\<open>QuoteJSONString\<close>: the two-character escapes, \<open>\u00XX\<close> for the other control characters.\<close>

definition escape_char :: "char \<Rightarrow> string" where
  "escape_char c =
     (if c = CHR 0x22 then [CHR 0x5C, CHR 0x22]
      else if c = CHR 0x5C then [CHR 0x5C, CHR 0x5C]
      else if c = CHR 0x08 then [CHR 0x5C, CHR ''b'']
      else if c = CHR 0x09 then [CHR 0x5C, CHR ''t'']
      else if c = CHR 0x0A then [CHR 0x5C, CHR ''n'']
      else if c = CHR 0x0C then [CHR 0x5C, CHR ''f'']
      else if c = CHR 0x0D then [CHR 0x5C, CHR ''r'']
      else if (of_char c :: nat) < 32
        then [CHR 0x5C, CHR ''u'', CHR ''0'', CHR ''0'',
              digit_char (of_char c div 16), digit_char (of_char c mod 16)]
      else [c])"

definition quote :: "string \<Rightarrow> string" where
  "quote s = CHR 0x22 # concat (map escape_char s) @ [CHR 0x22]"

fun join :: "string \<Rightarrow> string list \<Rightarrow> string" where
  "join sep [] = []"
| "join sep [x] = x"
| "join sep (x # y # ys) = x @ sep @ join sep (y # ys)"

text \<open>
  \<open>SerializeJSONProperty\<close>: \<open>Inl\<close> is the thrown \<open>TypeError\<close>, \<open>Inr None\<close> the result
  \<open>undefined\<close>. An array element that serializes to \<open>undefined\<close> prints as \<open>null\<close>; an
  object property that does is left out.
\<close>

fun serialize :: "jsval \<Rightarrow> js_error + string option"
  and serialize_elems :: "jsval list \<Rightarrow> js_error + string list"
  and serialize_props :: "(string \<times> jsval) list \<Rightarrow> js_error + string list" where
  "serialize JUndefined = Inr None"
| "serialize JNull = Inr (Some ''null'')"
| "serialize (JBool b) = Inr (Some (if b then ''true'' else ''false''))"
| "serialize (JNumber n) = Inr (Some (show_int n))"
| "serialize (JString s) = Inr (Some (quote s))"
| "serialize (JBigInt n) = Inl (TypeError ''Do not know how to serialize a BigInt'')"
| "serialize (JCycle n) = Inl (TypeError ''Converting circular structure to JSON'')"
| "serialize (JArray i xs) =
     (case serialize_elems xs of
        Inl e \<Rightarrow> Inl e
      | Inr parts \<Rightarrow> Inr (Some (''['' @ join '','' parts @ '']'')))"
| "serialize (JObject i fs) =
     (case serialize_props fs of
        Inl e \<Rightarrow> Inl e
      | Inr parts \<Rightarrow> Inr (Some (''{'' @ join '','' parts @ ''}'')))"
| "serialize_elems [] = Inr []"
| "serialize_elems (x # xs) =
     (case serialize x of
        Inl e \<Rightarrow> Inl e
      | Inr r \<Rightarrow>
          (case serialize_elems xs of
             Inl e \<Rightarrow> Inl e
           | Inr parts \<Rightarrow> Inr ((case r of None \<Rightarrow> ''null'' | Some s \<Rightarrow> s) # parts)))"
| "serialize_props [] = Inr []"
| "serialize_props ((k, v) # fs) =
     (case serialize v of
        Inl e \<Rightarrow> Inl e
      | Inr r \<Rightarrow>
          (case serialize_props fs of
             Inl e \<Rightarrow> Inl e
           | Inr parts \<Rightarrow>
               Inr (case r of None \<Rightarrow> parts | Some s \<Rightarrow> (quote k @ '':'' @ s) # parts)))"

definition JSON_stringify :: "jsval \<Rightarrow> js_error + string option" where
  "JSON_stringify v = serialize v"

text \<open>String concatenation \<open>s + x\<close>: \<open>ToString\<close> of the right operand.\<close>

definition to_string_prim :: "jsval \<Rightarrow> string" where
  "to_string_prim v = (case v of JString s \<Rightarrow> s | JNumber n \<Rightarrow> show_int n | _ \<Rightarrow> [])"

section \<open>The cache key codec\<close>

text \<open>
  \<open>queryKeyAndParamsToCacheKey\<close> (query.ts, lines 312--324). A string or number parameter is
  concatenated as it is; every other parameter goes through \<open>JSON.stringify\<close>, whose
  result \<open>undefined\<close> concatenates as the text \<open>undefined\<close> and whose exception leaves the
  function.
\<close>

definition queryKeyAndParamsToCacheKey :: "string \<Rightarrow> jsval \<Rightarrow> js_error + string" where
  "queryKeyAndParamsToCacheKey key params =
     (if params \<noteq> JUndefined \<and> params \<noteq> JNull then
        (if typeof params \<in> set [TString, TNumber] then Inr (key @ ''-'' @ to_string_prim params)
         else (case JSON_stringify params of
                 Inl e \<Rightarrow> Inl e
               | Inr None \<Rightarrow> Inr (key @ ''-'' @ ''undefined'')
               | Inr (Some s) \<Rightarrow> Inr (key @ ''-'' @ s)))
      else Inr key)"

text \<open>
  Deep structural equality of parameter values, as the specification words it: two objects
  are equal when they have the same field names and equal values under each name,
  whatever the order of their fields and whether or not they are the same object; arrays
  are equal element by element.
\<close>

fun deep_equal :: "jsval \<Rightarrow> jsval \<Rightarrow> bool" where
  "deep_equal (JArray i xs) (JArray j ys) = list_all2 deep_equal xs ys"
| "deep_equal (JObject i fs) (JObject j gs) =
     (set (map fst fs) = set (map fst gs) \<and>
      (\<forall>(k, v) \<in> set fs. \<forall>(k', w) \<in> set gs. k = k' \<longrightarrow> deep_equal v w))"
| "deep_equal a b = (a = b)"

text \<open>The two values enumerate the fields of corresponding objects in the same order.\<close>

fun same_field_order :: "jsval \<Rightarrow> jsval \<Rightarrow> bool" where
  "same_field_order (JArray i xs) (JArray j ys) = list_all2 same_field_order xs ys"
| "same_field_order (JObject i fs) (JObject j gs) =
     (map fst fs = map fst gs \<and> list_all2 same_field_order (map snd fs) (map snd gs))"
| "same_field_order a b = True"

text \<open>The values \<open>JSON.stringify\<close> accepts: no \<open>BigInt\<close> and no cycle anywhere inside.\<close>

fun serializable :: "jsval \<Rightarrow> bool" where
  "serializable (JBigInt n) = False"
| "serializable (JCycle n) = False"
| "serializable (JArray i xs) = list_all serializable xs"
| "serializable (JObject i fs) = list_all serializable (map snd fs)"
| "serializable a = True"

section \<open>Observables as timed traces\<close>

text \<open>
  What a cold observable delivers to one subscriber, from the moment of subscription:
  \<open>Emit v\<close> is a \<open>next\<close> notification delivered synchronously with what precedes it,
  \<open>Wait d\<close> the passing of \<open>d\<close> milliseconds (at least one turn of the event loop, also
  for \<open>d = 0\<close>), \<open>Complete\<close> and \<open>Error e\<close> the two terminal notifications, and \<open>Silent\<close>
  a stream from which nothing more arrives.
\<close>

datatype ('a, 'e) obs =
    Emit 'a "('a, 'e) obs"
  | Wait nat "('a, 'e) obs"
  | Complete
  | Error 'e
  | Silent

datatype 'e outcome = Completes | Fails 'e | Hangs

fun emitted :: "('a, 'e) obs \<Rightarrow> 'a list" where
  "emitted (Emit v r) = v # emitted r"
| "emitted (Wait d r) = emitted r"
| "emitted Complete = []"
| "emitted (Error e) = []"
| "emitted Silent = []"

fun ending :: "('a, 'e) obs \<Rightarrow> 'e outcome" where
  "ending (Emit v r) = ending r"
| "ending (Wait d r) = ending r"
| "ending Complete = Completes"
| "ending (Error e) = Fails e"
| "ending Silent = Hangs"

text \<open>The creation functions of RxJS used by query.ts.\<close>

definition of_obs :: "'a \<Rightarrow> ('a, 'e) obs" where
  "of_obs v = Emit v Complete"

definition from_list :: "'a list \<Rightarrow> ('a, 'e) obs" where
  "from_list xs = foldr Emit xs Complete"

definition EMPTY :: "('a, 'e) obs" where
  "EMPTY = Complete"

definition NEVER :: "('a, 'e) obs" where
  "NEVER = Silent"




text \<open>The pipeable operators.\<close>

definition startWith :: "'a \<Rightarrow> ('a, 'e) obs \<Rightarrow> ('a, 'e) obs" where
  "startWith v x = Emit v x"

fun map_obs :: "('a \<Rightarrow> 'b) \<Rightarrow> ('a, 'e) obs \<Rightarrow> ('b, 'e) obs" where
  "map_obs f (Emit v r) = Emit (f v) (map_obs f r)"
| "map_obs f (Wait d r) = Wait d (map_obs f r)"
| "map_obs f Complete = Complete"
| "map_obs f (Error e) = Error e"
| "map_obs f Silent = Silent"

fun filter_obs :: "('a \<Rightarrow> bool) \<Rightarrow> ('a, 'e) obs \<Rightarrow> ('a, 'e) obs" where
  "filter_obs P (Emit v r) = (if P v then Emit v (filter_obs P r) else filter_obs P r)"
| "filter_obs P (Wait d r) = Wait d (filter_obs P r)"
| "filter_obs P Complete = Complete"
| "filter_obs P (Error e) = Error e"
| "filter_obs P Silent = Silent"


fun concat_obs :: "('a, 'e) obs \<Rightarrow> ('a, 'e) obs \<Rightarrow> ('a, 'e) obs" where
  "concat_obs (Emit v r) y = Emit v (concat_obs r y)"
| "concat_obs (Wait d r) y = Wait d (concat_obs r y)"
| "concat_obs Complete y = y"
| "concat_obs (Error e) y = Error e"
| "concat_obs Silent y = Silent"

text \<open>
  \<open>concatMap\<close>: each inner observable runs to its completion before the next source value is
  projected; a projection that throws gives an error notification. The sources it is
  applied to here (a \<open>timer\<close>, a synchronous parameter list) emit nothing while an inner
  observable is running, so no source time overlaps an inner run.
\<close>

fun concatMap :: "('a \<Rightarrow> 'e + ('b, 'e) obs) \<Rightarrow> ('a, 'e) obs \<Rightarrow> ('b, 'e) obs" where
  "concatMap f (Emit v r) =
     (case f v of Inl e \<Rightarrow> Error e | Inr inner \<Rightarrow> concat_obs inner (concatMap f r))"
| "concatMap f (Wait d r) = Wait d (concatMap f r)"
| "concatMap f Complete = Complete"
| "concatMap f (Error e) = Error e"
| "concatMap f Silent = Silent"

fun take_obs :: "nat \<Rightarrow> ('a, 'e) obs \<Rightarrow> ('a, 'e) obs" where
  "take_obs 0 x = Complete"
| "take_obs (Suc n) (Emit v r) = (if n = 0 then Emit v Complete else Emit v (take_obs n r))"
| "take_obs (Suc n) (Wait d r) = Wait d (take_obs (Suc n) r)"
| "take_obs (Suc n) Complete = Complete"
| "take_obs (Suc n) (Error e) = Error e"
| "take_obs (Suc n) Silent = Silent"

text \<open>\<open>distinctUntilChanged(compare)\<close>; a comparison that throws gives an error notification.\<close>

fun distinctUntilChanged_go ::
  "('a \<Rightarrow> 'a \<Rightarrow> 'e + bool) \<Rightarrow> 'a option \<Rightarrow> ('a, 'e) obs \<Rightarrow> ('a, 'e) obs" where
  "distinctUntilChanged_go cmp None (Emit v r) = Emit v (distinctUntilChanged_go cmp (Some v) r)"
| "distinctUntilChanged_go cmp (Some u) (Emit v r) =
     (case cmp u v of
        Inl e \<Rightarrow> Error e
      | Inr same \<Rightarrow>
          (if same then distinctUntilChanged_go cmp (Some u) r
           else Emit v (distinctUntilChanged_go cmp (Some v) r)))"
| "distinctUntilChanged_go cmp prev (Wait d r) = Wait d (distinctUntilChanged_go cmp prev r)"
| "distinctUntilChanged_go cmp prev Complete = Complete"
| "distinctUntilChanged_go cmp prev (Error e) = Error e"
| "distinctUntilChanged_go cmp prev Silent = Silent"

definition distinctUntilChanged :: "('a \<Rightarrow> 'a \<Rightarrow> 'e + bool) \<Rightarrow> ('a, 'e) obs \<Rightarrow> ('a, 'e) obs" where
  "distinctUntilChanged cmp x = distinctUntilChanged_go cmp None x"

fun pairwise_go :: "'a option \<Rightarrow> ('a, 'e) obs \<Rightarrow> ('a \<times> 'a, 'e) obs" where
  "pairwise_go None (Emit v r) = pairwise_go (Some v) r"
| "pairwise_go (Some u) (Emit v r) = Emit (u, v) (pairwise_go (Some v) r)"
| "pairwise_go prev (Wait d r) = Wait d (pairwise_go prev r)"
| "pairwise_go prev Complete = Complete"
| "pairwise_go prev (Error e) = Error e"
| "pairwise_go prev Silent = Silent"

definition pairwise :: "('a, 'e) obs \<Rightarrow> ('a \<times> 'a, 'e) obs" where
  "pairwise x = pairwise_go None x"

text \<open>
  \<open>withLatestFrom\<close> on the interleaving of its two inputs: \<open>Inl\<close> is a value of the source,
  \<open>Inr\<close> a value of the other observable. A source value that arrives before the other
  observable has produced anything is dropped.
\<close>

fun withLatestFrom_go :: "'b option \<Rightarrow> ('a + 'b, 'e) obs \<Rightarrow> ('a \<times> 'b, 'e) obs" where
  "withLatestFrom_go latest (Emit (Inr k) r) = withLatestFrom_go (Some k) r"
| "withLatestFrom_go None (Emit (Inl c) r) = withLatestFrom_go None r"
| "withLatestFrom_go (Some k) (Emit (Inl c) r) = Emit (c, k) (withLatestFrom_go (Some k) r)"
| "withLatestFrom_go latest (Wait d r) = Wait d (withLatestFrom_go latest r)"
| "withLatestFrom_go latest Complete = Complete"
| "withLatestFrom_go latest (Error e) = Error e"
| "withLatestFrom_go latest Silent = Silent"

definition withLatestFrom :: "('a + 'b, 'e) obs \<Rightarrow> ('a \<times> 'b, 'e) obs" where
  "withLatestFrom x = withLatestFrom_go None x"

text \<open>
  \<open>merge\<close> of two traces on a common clock. The synchronous notifications of the first
  (the one subscribed to in the running turn) come first; of two timers due at the same
  time the first's fires first. The merged stream completes when both have completed.
\<close>

fun never_complete :: "('a, 'e) obs \<Rightarrow> ('a, 'e) obs" where
  "never_complete (Emit v r) = Emit v (never_complete r)"
| "never_complete (Wait d r) = Wait d (never_complete r)"
| "never_complete Complete = Silent"
| "never_complete (Error e) = Error e"
| "never_complete Silent = Silent"

fun merge_obs :: "('a, 'e) obs \<Rightarrow> ('a, 'e) obs \<Rightarrow> ('a, 'e) obs" where
  "merge_obs (Emit a x) y = Emit a (merge_obs x y)"
| "merge_obs (Error e) y = Error e"
| "merge_obs Complete y = y"
| "merge_obs Silent y = never_complete y"
| "merge_obs (Wait a x) (Emit b y) = Emit b (merge_obs (Wait a x) y)"
| "merge_obs (Wait a x) (Error e) = Error e"
| "merge_obs (Wait a x) Complete = Wait a x"
| "merge_obs (Wait a x) Silent = never_complete (Wait a x)"
| "merge_obs (Wait a x) (Wait b y) =
     (if a \<le> b then Wait a (merge_obs x (Wait (b - a) y))
      else Wait b (merge_obs (Wait (a - b) x) y))"

text \<open>
  \<open>expand(project)\<close>: every value, of the source and of every projected observable alike, is
  emitted and then projected, and the projected observable is merged into the output. The
  recursion need not end (a projection can answer each value with a new one), so it
  carries fuel: \<open>None\<close> is a run that the fuel did not suffice for.
\<close>

fun expand :: "nat \<Rightarrow> ('a \<Rightarrow> ('a, 'e) obs) \<Rightarrow> ('a, 'e) obs \<Rightarrow> ('a, 'e) obs option" where
  "expand 0 f x = None"
| "expand (Suc n) f (Emit v r) =
     (case expand n f (f v) of
        None \<Rightarrow> None
      | Some inner \<Rightarrow>
          (case expand n f r of
             None \<Rightarrow> None
           | Some outer \<Rightarrow> Some (Emit v (merge_obs inner outer))))"
| "expand (Suc n) f (Wait d r) = map_option (Wait d) (expand n f r)"
| "expand (Suc n) f Complete = Some Complete"
| "expand (Suc n) f (Error e) = Some (Error e)"
| "expand (Suc n) f Silent = Some Silent"





text \<open>
  \<open>subscribe({next, error})\<close>: the effects the two handlers perform, in order. A completion
  runs no handler.
\<close>

fun subscribe_effects :: "('a \<Rightarrow> 'b) \<Rightarrow> ('e \<Rightarrow> 'b list) \<Rightarrow> ('a, 'e) obs \<Rightarrow> 'b list" where
  "subscribe_effects on_next on_error (Emit v r) = on_next v # subscribe_effects on_next on_error r"
| "subscribe_effects on_next on_error (Wait d r) = subscribe_effects on_next on_error r"
| "subscribe_effects on_next on_error Complete = []"
| "subscribe_effects on_next on_error (Error e) = on_error e"
| "subscribe_effects on_next on_error Silent = []"

text \<open>
  \<open>shareReplay()\<close> without arguments keeps every value of its source (buffer size infinity,
  no reference counting). The first subscriber sees the source as it is; a subscriber that
  arrives when the source has produced \<open>sofar\<close> (\<open>Silent\<close> at its end: still running)
  receives the whole buffer synchronously, oldest value first.
\<close>

definition shareReplay :: "('a, 'e) obs \<Rightarrow> ('a, 'e) obs" where
  "shareReplay x = x"

definition shareReplay_late :: "('a, 'e) obs \<Rightarrow> ('a, 'e) obs" where
  "shareReplay_late sofar =
     foldr Emit (emitted sofar)
       (case ending sofar of Completes \<Rightarrow> Complete | Fails e \<Rightarrow> Error e | Hangs \<Rightarrow> Silent)"

section \<open>The query function of query.ts\<close>

subsection \<open>Result states, events and configuration\<close>

text \<open>
  \<open>Omit<QueryOutput, 'mutate'>\<close> is what one attempt of a fetch produces; \<open>QueryOutput\<close> adds
  the bound \<open>mutate\<close> function. An absent field is \<open>None\<close>.
\<close>

record ('d, 'e) QueryOutput_omit_mutate =
  status :: string
  data :: "'d option"
  error :: "'e option"
  retries :: "nat option"

record ('d, 'e, 'm) QueryOutput = "('d, 'e) QueryOutput_omit_mutate" +
  mutate :: 'm

datatype Trigger =
    QuerySubscribe
  | QueryUnsubscribe
  | GroupUnsubscribe
  | Interval
  | Focus
  | MutateOptimistic
  | MutateSuccess
  | MutateError

text \<open>
  An event on the \<open>revalidate\<close> bus. \<open>params\<close> is \<open>JUndefined\<close> where the event has none;
  \<open>rv_data\<close> is the field \<open>data\<close> of a mutation event.
\<close>

record ('q, 'c, 'x) Revalidator =
  key :: string
  query :: "'q option"
  trigger :: Trigger
  params :: jsval
  config :: "'c option"
  rv_data :: "'x option"

text \<open>
  The fields of \<open>QueryConfig\<close> that query.ts reads. \<open>retries\<close> and \<open>retryDelay\<close> are a number, a
  function, or a falsy value that is neither (an explicit \<open>undefined\<close> in the caller's
  configuration); the mutator returns a plain value or an observable.
\<close>

datatype 'e retries_config = RetriesNumber int | RetriesFn "nat \<Rightarrow> 'e option \<Rightarrow> bool" | RetriesFalsy

datatype delay_config = DelayNumber nat | DelayFn "nat \<Rightarrow> nat" | DelayFalsy

datatype ('d, 'e) mutator_result = Plain 'd | Async "('d, 'e) obs"

record ('d, 'e) QueryConfig =
  cfg_retries :: "'e retries_config"
  cfg_retryDelay :: delay_config
  cfg_mutator :: "'d \<Rightarrow> jsval \<Rightarrow> ('d, 'e) mutator_result"

text \<open>The caller's configuration: every field is optional.\<close>

record ('d, 'e) InputConfig =
  in_retries :: "'e retries_config option"
  in_retryDelay :: "delay_config option"
  in_mutator :: "('d \<Rightarrow> jsval \<Rightarrow> ('d, 'e) mutator_result) option"

subsection \<open>Retry policy\<close>



subsection \<open>The invocation\<close>







subsection \<open>Mutation\<close>

datatype ('d, 'e) mutation_data = NewValue 'd | Rejection 'e

text \<open>
  Modelled from the spec: mutate.ts, with the functions \<open>mutate\<close>, \<open>mutateOptimistic\<close> and
  \<open>mutateError\<close>, is not among the sources. By section 4.5 of the specification,
  \<open>mutate(key, value)\<close> emits \<open>mutate-success\<close>, \<open>mutateOptimistic(key, value)\<close> emits
  \<open>mutate-optimistic\<close> and \<open>mutateError(key, error)\<close> emits \<open>mutate-error\<close>. Each is the event
  it puts on the bus; \<open>mutate\<close> is named \<open>mutateSuccess\<close> here, the name \<open>mutate\<close> being the
  field of \<open>QueryOutput\<close>.
\<close>

definition mutateSuccess :: "string \<Rightarrow> 'd \<Rightarrow> ('q, 'c, ('d, 'e) mutation_data) Revalidator" where
  "mutateSuccess cacheKey d =
     \<lparr>key = cacheKey, query = None, trigger = MutateSuccess, params = JUndefined, config = None,
      rv_data = Some (NewValue d)\<rparr>"

definition mutateOptimistic :: "string \<Rightarrow> 'd \<Rightarrow> ('q, 'c, ('d, 'e) mutation_data) Revalidator" where
  "mutateOptimistic cacheKey d =
     \<lparr>key = cacheKey, query = None, trigger = MutateOptimistic, params = JUndefined, config = None,
      rv_data = Some (NewValue d)\<rparr>"

definition mutateError :: "string \<Rightarrow> 'e \<Rightarrow> ('q, 'c, ('d, 'e) mutation_data) Revalidator" where
  "mutateError cacheKey errorData =
     \<lparr>key = cacheKey, query = None, trigger = MutateError, params = JUndefined, config = None,
      rv_data = Some (Rejection errorData)\<rparr>"

text \<open>
  \<open>mutateQuery\<close> (lines 83--101): the events the bound \<open>mutate\<close> puts on the bus, in order.
  The mutator is called first, then the cache key is computed, which can throw.
\<close>

definition mutateQuery ::
  "string \<Rightarrow> ('d, 'e, 'z) QueryConfig_scheme \<Rightarrow> jsval \<Rightarrow> 'd \<Rightarrow>
   js_error + ('q, 'c, ('d, 'e) mutation_data) Revalidator list" where
  "mutateQuery k queryConfig p d =
     (let mutate_result = cfg_mutator queryConfig d p in
      case queryKeyAndParamsToCacheKey k p of
        Inl thrown \<Rightarrow> Inl thrown
      | Inr cacheKey \<Rightarrow>
          (case mutate_result of
             Async mutate_obs \<Rightarrow>
               Inr (subscribe_effects (\<lambda>evt. evt) (\<lambda>errorData. [mutateError cacheKey errorData])
                      (startWith (mutateOptimistic cacheKey d)
                         (take_obs 1 (map_obs (\<lambda>newData. mutateSuccess cacheKey newData) mutate_obs))))
           | Plain v \<Rightarrow> Inr [mutateSuccess cacheKey v]))"


subsection \<open>The parameter trigger\<close>

text \<open>\<open>JSON.stringify(a) === JSON.stringify(b)\<close>.\<close>

definition json_equal :: "jsval \<Rightarrow> jsval \<Rightarrow> js_error + bool" where
  "json_equal a b =
     (case JSON_stringify a of
        Inl e \<Rightarrow> Inl e
      | Inr x \<Rightarrow> (case JSON_stringify b of Inl e \<Rightarrow> Inl e | Inr y \<Rightarrow> Inr (x = y)))"

text \<open>The function given to \<open>concatMap\<close> in \<open>paramsTrigger\<close> (lines 205--227).\<close>

definition params_revalidates ::
  "'c \<Rightarrow> string \<Rightarrow> 'q \<Rightarrow> jsval \<times> jsval \<Rightarrow> js_error + (('q, 'c, 'x) Revalidator, js_error) obs" where
  "params_revalidates queryConfig k invoker pair =
     (case pair of (previous, p) \<Rightarrow>
        (case (if previous \<noteq> JUndefined then
                 (case queryKeyAndParamsToCacheKey k previous of
                    Inl e \<Rightarrow> Inl e
                  | Inr ck \<Rightarrow>
                      Inr [\<lparr>key = ck, query = Some invoker, trigger = QueryUnsubscribe,
                            params = previous, config = Some queryConfig, rv_data = None\<rparr>])
               else Inr []) of
           Inl e \<Rightarrow> Inl e
         | Inr revalidates \<Rightarrow>
             (case queryKeyAndParamsToCacheKey k p of
                Inl e \<Rightarrow> Inl e
              | Inr ck \<Rightarrow>
                  Inr (from_list
                         (revalidates @
                          [\<lparr>key = ck, query = Some invoker, trigger = QuerySubscribe, params = p,
                            config = Some queryConfig, rv_data = None\<rparr>])))))"

text \<open>\<open>paramsTrigger\<close> (lines 195--230).\<close>

definition paramsTrigger ::
  "'c \<Rightarrow> (jsval, js_error) obs \<Rightarrow> string \<Rightarrow> 'q \<Rightarrow> (('q, 'c, 'x) Revalidator, js_error) obs" where
  "paramsTrigger queryConfig queryParam k invoker =
     shareReplay
       (concatMap (params_revalidates queryConfig k invoker)
          (pairwise (distinctUntilChanged json_equal (startWith JUndefined queryParam))))"

subsection \<open>The call shapes\<close>

text \<open>
  The two overloads of \<open>query\<close>: \<open>query(key, fetch, config?)\<close> and
  \<open>query(key, param, fetch, config?)\<close> with a static parameter or a stream of parameters.
  \<open>parseInput\<close> (lines 281--310) tells them apart by the type of the first input; the
  default configuration of config.ts, which is not among the sources, is a parameter.
\<close>

datatype param_input = Static jsval | Stream "(jsval, js_error) obs"

datatype ('f, 'c) query_inputs = NoParam 'f "'c option" | WithParam param_input 'f "'c option"

definition spread_config ::
  "('d, 'e) QueryConfig \<Rightarrow> ('d, 'e) InputConfig option \<Rightarrow> ('d, 'e) QueryConfig" where
  "spread_config dflt inputConfig =
     (case inputConfig of
        None \<Rightarrow> dflt
      | Some c \<Rightarrow>
          \<lparr>cfg_retries = (case in_retries c of None \<Rightarrow> cfg_retries dflt | Some v \<Rightarrow> v),
           cfg_retryDelay = (case in_retryDelay c of None \<Rightarrow> cfg_retryDelay dflt | Some v \<Rightarrow> v),
           cfg_mutator = (case in_mutator c of None \<Rightarrow> cfg_mutator dflt | Some v \<Rightarrow> v)\<rparr>)"

definition parseInput ::
  "('d, 'e) QueryConfig \<Rightarrow> ('f, ('d, 'e) InputConfig) query_inputs \<Rightarrow>
   'f \<times> (jsval, js_error) obs \<times> ('d, 'e) QueryConfig" where
  "parseInput dflt inputs =
     (case inputs of
        NoParam f inputConfig \<Rightarrow> (f, of_obs JNull, spread_config dflt inputConfig)
      | WithParam firstInput f inputConfig \<Rightarrow>
          (f,
           (case firstInput of Stream x \<Rightarrow> x | Static v \<Rightarrow> of_obs v),
           spread_config dflt inputConfig))"

subsection \<open>What the consumer receives, and the teardown\<close>

text \<open>
  A value of \<open>queryCache\<close> is indexed by cache key; query.ts reads the fields \<open>trigger\<close> and
  \<open>groupState.result\<close> of an entry. Modelled from the spec: types.ts is not among the
  sources, the other fields of \<open>GroupState\<close> are those of section 3 of the specification.
\<close>

record 'r GroupState =
  subscriberCount :: nat
  result :: 'r
  evictionTimer :: "nat option"
  mutating :: bool

record 'r CacheEntry =
  groupState :: "'r GroupState"
  group_trigger :: Trigger

type_synonym 'r QueryCache = "string \<Rightarrow> 'r CacheEntry option"

text \<open>
  The pipe on \<open>queryCache\<close> (lines 158--168), on the interleaving of the cache's values
  (\<open>Inl\<close>) with the values of \<open>params$\<close> (\<open>Inr\<close>). \<open>distinctUntilChanged()\<close> compares with
  \<open>===\<close>: the result type \<open>'r\<close> stands for the result objects, equal when they are the same
  object.
\<close>

definition query_results ::
  "('r QueryCache + ('q, 'c, 'x) Revalidator, 'e) obs \<Rightarrow> ('r, 'e) obs" where
  "query_results x =
     distinctUntilChanged (\<lambda>a b. Inr (a = b))
       (map_obs (\<lambda>v. result (groupState (the v)))
          (filter_obs
             (\<lambda>v. v \<noteq> None \<and> group_trigger (the v) \<notin> set [QueryUnsubscribe, GroupUnsubscribe])
             (map_obs (\<lambda>(c, k). c (key k)) (withLatestFrom x))))"

text \<open>
  The callback of \<open>finalize\<close> (lines 169--178): what it puts on the bus at once, given what
  \<open>params$\<close> has produced up to the unsubscription.
\<close>

definition query_finalize ::
  "(('q, 'c, 'x) Revalidator, js_error) obs \<Rightarrow> ('q, 'c, 'x) Revalidator list" where
  "query_finalize params_sofar =
     subscribe_effects (\<lambda>r. r\<lparr>trigger := QueryUnsubscribe\<rparr>) (\<lambda>e. [])
       (take_obs 1 (shareReplay_late params_sofar))"

section \<open>Properties of the cache key codec\<close>

lemma serialize_elems_cong:
  "list_all2 (\<lambda>x y. serialize x = serialize y) xs ys \<Longrightarrow> serialize_elems xs = serialize_elems ys"
  by (induction rule: list_all2_induct) (simp_all split: sum.splits)

lemma serialize_props_cong:
  "list_all2 (\<lambda>a b. fst a = fst b \<and> serialize (snd a) = serialize (snd b)) fs gs \<Longrightarrow>
   serialize_props fs = serialize_props gs"
proof (induction rule: list_all2_induct)
  case Nil
  show ?case by simp
next
  case (Cons a fs b gs)
  obtain k v where a: "a = (k, v)" by (cases a)
  obtain k' w where b: "b = (k', w)" by (cases b)
  show ?case using Cons unfolding a b by (simp split: sum.splits)
qed

lemma deep_equal_elems:
  assumes ih: "\<And>x q. x \<in> set xs \<Longrightarrow> deep_equal x q \<Longrightarrow> same_field_order x q \<Longrightarrow> serialize x = serialize q"
    and e: "list_all2 deep_equal xs ys"
    and s: "list_all2 same_field_order xs ys"
  shows "list_all2 (\<lambda>x y. serialize x = serialize y) xs ys"
proof (rule list_all2_all_nthI)
  show "length xs = length ys" using e by (rule list_all2_lengthD)
  fix i assume i: "i < length xs"
  then have m: "xs ! i \<in> set xs" by simp
  have "deep_equal (xs ! i) (ys ! i)" using e i by (rule list_all2_nthD)
  moreover have "same_field_order (xs ! i) (ys ! i)" using s i by (rule list_all2_nthD)
  ultimately show "serialize (xs ! i) = serialize (ys ! i)" using ih m by blast
qed

lemma deep_equal_props:
  assumes ih: "\<And>k v q. (k, v) \<in> set fs \<Longrightarrow> deep_equal v q \<Longrightarrow> same_field_order v q \<Longrightarrow> serialize v = serialize q"
    and keys: "map fst fs = map fst gs"
    and e: "\<forall>(k, v) \<in> set fs. \<forall>(k', w) \<in> set gs. k = k' \<longrightarrow> deep_equal v w"
    and s: "list_all2 same_field_order (map snd fs) (map snd gs)"
  shows "list_all2 (\<lambda>a b. fst a = fst b \<and> serialize (snd a) = serialize (snd b)) fs gs"
proof (rule list_all2_all_nthI)
  show len: "length fs = length gs" using keys by (metis length_map)
  fix i assume i: "i < length fs"
  obtain k v where f: "fs ! i = (k, v)" by (cases "fs ! i")
  obtain k' w where g: "gs ! i = (k', w)" by (cases "gs ! i")
  have mf: "(k, v) \<in> set fs" using i f by (metis nth_mem)
  have mg: "(k', w) \<in> set gs" using i len g by (metis nth_mem)
  have "fst (fs ! i) = fst (gs ! i)" using keys i len by (metis nth_map)
  then have kk: "k = k'" using f g by simp
  have de: "deep_equal v w" using e mf mg kk by blast
  have "i < length (map snd fs)" using i by simp
  with s have "same_field_order (map snd fs ! i) (map snd gs ! i)"
    by (rule list_all2_nthD)
  then have sv: "same_field_order v w" using f g i len by simp
  have "serialize v = serialize w" using ih mf de sv by blast
  then show "fst (fs ! i) = fst (gs ! i) \<and> serialize (snd (fs ! i)) = serialize (snd (gs ! i))"
    using f g kk by simp
qed

lemma deep_equal_serialize:
  "deep_equal p q \<Longrightarrow> same_field_order p q \<Longrightarrow> serialize p = serialize q"
proof (induction p arbitrary: q)
  case (JArray i xs)
  show ?case
  proof (cases q)
    case (JArray j ys)
    have "list_all2 (\<lambda>x y. serialize x = serialize y) xs ys"
    proof (rule deep_equal_elems)
      fix x q' assume "x \<in> set xs" "deep_equal x q'" "same_field_order x q'"
      then show "serialize x = serialize q'" by (rule JArray.IH)
    qed (use JArray.prems JArray in auto)
    then have "serialize_elems xs = serialize_elems ys" by (rule serialize_elems_cong)
    then show ?thesis using JArray by simp
  qed (use JArray.prems in auto)
next
  case (JObject i fs)
  show ?case
  proof (cases q)
    case (JObject j gs)
    have "list_all2 (\<lambda>a b. fst a = fst b \<and> serialize (snd a) = serialize (snd b)) fs gs"
    proof (rule deep_equal_props)
      fix k v q' assume "(k, v) \<in> set fs" "deep_equal v q'" "same_field_order v q'"
      then show "serialize v = serialize q'" using JObject.IH[of "(k, v)" v q'] by simp
    qed (use JObject.prems JObject in auto)
    then have "serialize_props fs = serialize_props gs" by (rule serialize_props_cong)
    then show ?thesis using JObject by simp
  qed (use JObject.prems in auto)
qed auto

lemma deep_equal_primitive:
  "deep_equal p q \<Longrightarrow>
   typeof p = typeof q \<and> to_string_prim p = to_string_prim q \<and>
   (p = JUndefined) = (q = JUndefined) \<and> (p = JNull) = (q = JNull)"
  by (cases p; cases q) (simp_all add: to_string_prim_def)

lemma serialize_total:
  "(\<exists>r. serialize v = Inr r) = serializable v"
  "(\<exists>r. serialize_elems xs = Inr r) = list_all serializable xs"
  "(\<exists>r. serialize_props fs = Inr r) = list_all serializable (map snd fs)"
  by (induction v and xs and fs rule: serialize_serialize_elems_serialize_props.induct)
     (auto split: sum.splits)

lemmas codec_eval =
  queryKeyAndParamsToCacheKey_def JSON_stringify_def quote_def escape_char_def show_int_def
  show_magnitude_def strip_trailing_zeros_def digit_char_def to_string_prim_def

text \<open>
  C8, as the specification states it, fails: two objects with the same fields and values
  in a different insertion order are deeply equal and get different cache keys, because
  \<open>JSON.stringify\<close> prints the fields in enumeration order.
\<close>

theorem cache_key_field_order_counterexample:
  "deep_equal (JObject 1 [(''a'', JNumber 1), (''b'', JNumber 2)])
              (JObject 2 [(''b'', JNumber 2), (''a'', JNumber 1)]) \<and>
   queryKeyAndParamsToCacheKey ''todos'' (JObject 1 [(''a'', JNumber 1), (''b'', JNumber 2)])
     \<noteq> queryKeyAndParamsToCacheKey ''todos'' (JObject 2 [(''b'', JNumber 2), (''a'', JNumber 1)])"
  by (simp add: codec_eval insert_commute)

text \<open>
  C8 (amended): for every query name and every pair of parameter values that are deeply
  structurally equal and enumerate the fields of their objects in the same order,
  \<open>queryKeyAndParamsToCacheKey\<close> returns the same result for both, also when the two are
  different objects: the codec reads the fields and never the identity.
\<close>

theorem cache_key_deep_equal_same_order:
  assumes e: "deep_equal p q" and o: "same_field_order p q"
  shows "queryKeyAndParamsToCacheKey name p = queryKeyAndParamsToCacheKey name q"
proof -
  have s: "serialize p = serialize q" using e o by (rule deep_equal_serialize)
  have t: "typeof p = typeof q" and c: "to_string_prim p = to_string_prim q"
    and u: "(p = JUndefined) = (q = JUndefined)" and n: "(p = JNull) = (q = JNull)"
    using deep_equal_primitive[OF e] by simp_all
  show ?thesis
    unfolding queryKeyAndParamsToCacheKey_def JSON_stringify_def s t c u n ..
qed

theorem cache_key_deep_equal_same_order_witness:
  "deep_equal (JObject 1 [(''id'', JNumber 7), (''tags'', JArray 2 [JString ''x'', JNull])])
              (JObject 3 [(''id'', JNumber 7), (''tags'', JArray 4 [JString ''x'', JNull])]) \<and>
   same_field_order (JObject 1 [(''id'', JNumber 7), (''tags'', JArray 2 [JString ''x'', JNull])])
                    (JObject 3 [(''id'', JNumber 7), (''tags'', JArray 4 [JString ''x'', JNull])]) \<and>
   JObject 1 [(''id'', JNumber 7), (''tags'', JArray 2 [JString ''x'', JNull])]
     \<noteq> JObject 3 [(''id'', JNumber 7), (''tags'', JArray 4 [JString ''x'', JNull])] \<and>
   queryKeyAndParamsToCacheKey ''todos''
       (JObject 1 [(''id'', JNumber 7), (''tags'', JArray 2 [JString ''x'', JNull])])
     = queryKeyAndParamsToCacheKey ''todos''
       (JObject 3 [(''id'', JNumber 7), (''tags'', JArray 4 [JString ''x'', JNull])]) \<and>
   queryKeyAndParamsToCacheKey ''todos''
       (JObject 3 [(''id'', JNumber 7), (''tags'', JArray 4 [JString ''x'', JNull])])
     = Inr ''todos-{\"id\":7,\"tags\":[\"x\",null]}''"
proof -
  have e: "deep_equal (JObject 1 [(''id'', JNumber 7), (''tags'', JArray 2 [JString ''x'', JNull])])
              (JObject 3 [(''id'', JNumber 7), (''tags'', JArray 4 [JString ''x'', JNull])])"
    by simp
  have o: "same_field_order (JObject 1 [(''id'', JNumber 7), (''tags'', JArray 2 [JString ''x'', JNull])])
                    (JObject 3 [(''id'', JNumber 7), (''tags'', JArray 4 [JString ''x'', JNull])])"
    by simp
  have k: "queryKeyAndParamsToCacheKey ''todos''
       (JObject 3 [(''id'', JNumber 7), (''tags'', JArray 4 [JString ''x'', JNull])])
     = Inr ''todos-{\"id\":7,\"tags\":[\"x\",null]}''"
    by (simp add: codec_eval)
  have d: "JObject 1 [(''id'', JNumber 7), (''tags'', JArray 2 [JString ''x'', JNull])]
     \<noteq> JObject 3 [(''id'', JNumber 7), (''tags'', JArray 4 [JString ''x'', JNull])]"
    by simp
  show ?thesis
    apply (intro conjI)
        apply (rule e)
       apply (rule o)
      apply (rule d)
     apply (rule cache_key_deep_equal_same_order[OF e o])
    apply (rule k)
    done
qed

lemma cache_key_large_number:
  "queryKeyAndParamsToCacheKey ''todos'' (JNumber 1000000000000000000000) = Inr ''todos-1e+21'' \<and>
   queryKeyAndParamsToCacheKey ''todos'' (JNumber (- 1500000000000000000000)) = Inr ''todos--1.5e+21'' \<and>
   queryKeyAndParamsToCacheKey ''todos'' (JNumber 123456789012345680000) = Inr ''todos-123456789012345680000'' \<and>
   queryKeyAndParamsToCacheKey ''todos'' (JNumber 0) = Inr ''todos-0''"
  by (simp add: codec_eval)

text \<open>
  C9, as the specification states it, fails: on an object that contains itself, and on a
  \<open>BigInt\<close>, \<open>JSON.stringify\<close> throws a \<open>TypeError\<close>, and \<open>queryKeyAndParamsToCacheKey\<close>
  throws with it.
\<close>

theorem cache_key_throws_counterexample:
  "queryKeyAndParamsToCacheKey ''todos'' (JObject 1 [(''self'', JCycle 0)])
     = Inl (TypeError ''Converting circular structure to JSON'') \<and>
   queryKeyAndParamsToCacheKey ''todos'' (JBigInt 1)
     = Inl (TypeError ''Do not know how to serialize a BigInt'')"
  by (simp add: codec_eval)

text \<open>
  C9 (amended): \<open>queryKeyAndParamsToCacheKey\<close> is a function of its two arguments, and it
  returns a string exactly for the parameter values that \<open>JSON.stringify\<close> accepts (no
  cycle and no \<open>BigInt\<close> anywhere inside); on every other parameter value it throws.
\<close>

theorem cache_key_total_iff:
  "(\<exists>s. queryKeyAndParamsToCacheKey name p = Inr s) = serializable p"
  using serialize_total(1)[of p]
  by (cases p)
     (auto simp: queryKeyAndParamsToCacheKey_def JSON_stringify_def split: sum.splits option.splits)

theorem cache_key_total_iff_witness:
  "serializable (JObject 1 [(''page'', JNumber 2), (''q'', JUndefined)]) \<and>
   (\<exists>s. queryKeyAndParamsToCacheKey ''todos'' (JObject 1 [(''page'', JNumber 2), (''q'', JUndefined)]) = Inr s)"
  using cache_key_total_iff [of "''todos''" "JObject 1 [(''page'', JNumber 2), (''q'', JUndefined)]"]
  by simp

section \<open>Properties of the invocation\<close>

subsection \<open>Traces and the fuel of \<open>expand\<close>\<close>




lemma emitted_map_obs: "emitted (map_obs g x) = map g (emitted x)"
  by (induction x) simp_all


lemma expand_mono: "expand n f x = Some y \<Longrightarrow> n \<le> m \<Longrightarrow> expand m f x = Some y"
proof (induction n arbitrary: m x y)
  case 0
  then show ?case by simp
next
  case (Suc n)
  from Suc.prems(2) obtain m' where m: "m = Suc m'" and le: "n \<le> m'"
    by (cases m) simp_all
  show ?case
  proof (cases x)
    case (Emit v r)
    from Suc.prems(1) obtain inner outer where
      i: "expand n f (f v) = Some inner" and o: "expand n f r = Some outer"
      and y: "y = Emit v (merge_obs inner outer)"
      unfolding Emit by (auto split: option.splits)
    have "expand m' f (f v) = Some inner" using i le by (rule Suc.IH)
    moreover have "expand m' f r = Some outer" using o le by (rule Suc.IH)
    ultimately show ?thesis unfolding Emit m y by simp
  next
    case (Wait d r)
    from Suc.prems(1) obtain t where t: "expand n f r = Some t" and y: "y = Wait d t"
      unfolding Wait by auto
    have "expand m' f r = Some t" using t le by (rule Suc.IH)
    then show ?thesis unfolding Wait m y by simp
  next
    case Complete
    from Suc.prems(1) have y: "y = Complete" unfolding Complete by simp
    show ?thesis unfolding Complete m y by simp
  next
    case (Error e)
    from Suc.prems(1) have y: "y = Error e" unfolding Error by simp
    show ?thesis unfolding Error m y by simp
  next
    case Silent
    from Suc.prems(1) have y: "y = Silent" unfolding Silent by simp
    show ?thesis unfolding Silent m y by simp
  qed
qed

definition expands_to :: "('a \<Rightarrow> ('a, 'e) obs) \<Rightarrow> ('a, 'e) obs \<Rightarrow> ('a, 'e) obs \<Rightarrow> bool" where
  "expands_to f x t = (\<exists>n. expand n f x = Some t)"



















lemma expand_determ:
  assumes "expands_to f x t" and "expand n f x = Some t'"
  shows "t' = t"
proof -
  from assms(1) obtain k where k: "expand k f x = Some t" unfolding expands_to_def ..
  have "expand (max k n) f x = Some t" using k by (rule expand_mono) simp
  moreover have "expand (max k n) f x = Some t'" using assms(2) by (rule expand_mono) simp
  ultimately show ?thesis by simp
qed



subsection \<open>Error states and the debounce\<close>



















subsection \<open>Failures of the fetch\<close>








lemma expands_to_Error: "expands_to f (Error e) (Error e)"
  unfolding expands_to_def by (rule exI[of _ "Suc 0"]) simp

















section \<open>Properties of the mutation\<close>

datatype ('d, 'e) settlement = Resolved 'd | Rejected 'e | Unsettled

text \<open>What an observable does first: emit a value, fail, or neither.\<close>

primrec first_outcome :: "('d, 'e) obs \<Rightarrow> ('d, 'e) settlement" where
  "first_outcome (Emit v r) = Resolved v"
| "first_outcome (Wait d r) = first_outcome r"
| "first_outcome Complete = Unsettled"
| "first_outcome (Error e) = Rejected e"
| "first_outcome Silent = Unsettled"

lemma subscribe_take_first:
  "subscribe_effects (\<lambda>evt. evt) h (take_obs (Suc 0) (map_obs g x)) =
     (case first_outcome x of Resolved v \<Rightarrow> [g v] | Rejected e \<Rightarrow> h e | Unsettled \<Rightarrow> [])"
  by (induction x) simp_all

text \<open>
  C6 (amended): when the cache key of the parameters can be computed, a mutator that returns
  a plain value makes the bound \<open>mutate\<close> emit a single \<open>mutate-success\<close> event with
  that value and nothing else. A mutator that returns an observable makes it emit
  \<open>mutate-optimistic\<close> with the caller's value first, followed by at most one terminal
  event: \<open>mutate-success\<close> with the first value when the observable emits before it
  fails, \<open>mutate-error\<close> with the error when it fails before it emits, and no event when it
  completes or stays silent without a value. Never both.
\<close>

theorem mutate_protocol:
  assumes "queryKeyAndParamsToCacheKey name p = Inr cacheKey"
  shows "(\<forall>v. cfg_mutator queryConfig d p = Plain v \<longrightarrow>
              mutateQuery name queryConfig p d = Inr [mutateSuccess cacheKey v]) \<and>
         (\<forall>x. cfg_mutator queryConfig d p = Async x \<longrightarrow>
              mutateQuery name queryConfig p d =
                Inr (mutateOptimistic cacheKey d #
                     (case first_outcome x of
                        Resolved v \<Rightarrow> [mutateSuccess cacheKey v]
                      | Rejected e \<Rightarrow> [mutateError cacheKey e]
                      | Unsettled \<Rightarrow> [])))"
  using assms by (simp add: mutateQuery_def startWith_def subscribe_take_first)

theorem mutate_protocol_witness:
  "queryKeyAndParamsToCacheKey ''todos'' (JNumber 3) = Inr ''todos-3'' \<and>
   mutateQuery ''todos''
     \<lparr>cfg_retries = RetriesNumber 3, cfg_retryDelay = DelayNumber 0,
      cfg_mutator = (\<lambda>d p. Async (Wait 3 (Emit (d + 1) (Error ''late''))))\<rparr> (JNumber 3) (5 :: nat) =
     Inr [mutateOptimistic ''todos-3'' 5,
          mutateSuccess ''todos-3'' 6 :: (unit, unit, (nat, string) mutation_data) Revalidator] \<and>
   mutateQuery ''todos''
     \<lparr>cfg_retries = RetriesNumber 3, cfg_retryDelay = DelayNumber 0,
      cfg_mutator = (\<lambda>d p. Plain (d + 1))\<rparr> (JNumber 3) (5 :: nat) =
     Inr [mutateSuccess ''todos-3'' 6 :: (unit, unit, (nat, string) mutation_data) Revalidator]"
proof -
  have k: "queryKeyAndParamsToCacheKey ''todos'' (JNumber 3) = Inr ''todos-3''"
    by (simp add: codec_eval)
  show ?thesis
    using k
      mutate_protocol[OF k, of "\<lparr>cfg_retries = RetriesNumber 3, cfg_retryDelay = DelayNumber 0,
        cfg_mutator = (\<lambda>d p. Async (Wait 3 (Emit (d + 1) (Error ''late''))))\<rparr>" "5 :: nat"]
      mutate_protocol[OF k, of "\<lparr>cfg_retries = RetriesNumber 3, cfg_retryDelay = DelayNumber 0,
        cfg_mutator = (\<lambda>d p. Plain (d + 1))\<rparr>" "5 :: nat"]
    by simp
qed

text \<open>
  C6, as the specification states it, fails: for a mutator whose observable completes
  without a value (\<open>EMPTY\<close>), \<open>mutate-optimistic\<close> is the only event, and no terminal
  event follows it.
\<close>

theorem mutate_no_terminal_counterexample:
  "mutateQuery ''todos''
     \<lparr>cfg_retries = RetriesNumber 3, cfg_retryDelay = DelayNumber 0,
      cfg_mutator = (\<lambda>d p. Async (EMPTY :: (nat, string) obs))\<rparr> JNull (5 :: nat) =
     Inr [mutateOptimistic ''todos'' 5 :: (unit, unit, (nat, string) mutation_data) Revalidator]"
  by (simp add: mutateQuery_def startWith_def EMPTY_def queryKeyAndParamsToCacheKey_def)

section \<open>Properties of the consumer's results\<close>

lemma emitted_filter_obs: "emitted (filter_obs P x) = filter P (emitted x)"
  by (induction x) simp_all

lemma emitted_distinctUntilChanged_go:
  "emitted (distinctUntilChanged_go (\<lambda>a b. Inr (a = b)) prev x) =
     (case prev of None \<Rightarrow> remdups_adj (emitted x) | Some u \<Rightarrow> tl (remdups_adj (u # emitted x)))"
proof (induction x arbitrary: prev)
  case (Emit v r)
  show ?case
  proof (cases prev)
    case None
    then show ?thesis using Emit[of "Some v"] by (cases "emitted r") (simp_all)
  next
    case (Some u)
    then show ?thesis using Emit[of "Some u"] Emit[of "Some v"] by (cases "emitted r") (simp_all)
  qed
qed (simp_all split: option.splits)

text \<open>
  C7: what the consumer receives is determined by the entries of the cache values under
  the key of the latest parameter event alone. A cache value with no entry under that
  key contributes nothing, an entry whose trigger is \<open>query-unsubscribe\<close> or
  \<open>group-unsubscribe\<close> is dropped, and of the results that remain adjacent repetitions
  are collapsed.
\<close>

theorem consumer_results:
  "emitted (query_results x) =
     remdups_adj
       (map (\<lambda>entry. result (groupState entry))
          (filter (\<lambda>entry. group_trigger entry \<noteq> QueryUnsubscribe \<and> group_trigger entry \<noteq> GroupUnsubscribe)
             (List.map_filter (\<lambda>(c, k). c (key k)) (emitted (withLatestFrom x)))))"
  by (simp add: query_results_def distinctUntilChanged_def emitted_distinctUntilChanged_go
      emitted_map_obs emitted_filter_obs List.map_filter_def filter_map o_def case_prod_unfold)

theorem consumer_results_witness:
  "emitted (query_results
     (Emit (Inr \<lparr>key = ''todos'', query = None, trigger = QuerySubscribe, params = JNull,
                 config = None, rv_data = None\<rparr>)
       (Emit (Inl [''todos'' \<mapsto> \<lparr>groupState = \<lparr>subscriberCount = 1, result = 10, evictionTimer = None, mutating = False\<rparr>,
                                 group_trigger = QuerySubscribe\<rparr>])
         (Emit (Inl [''todos'' \<mapsto> \<lparr>groupState = \<lparr>subscriberCount = 0, result = 20, evictionTimer = None, mutating = False\<rparr>,
                                   group_trigger = QueryUnsubscribe\<rparr>])
           (Emit (Inl [''other'' \<mapsto> \<lparr>groupState = \<lparr>subscriberCount = 1, result = 30, evictionTimer = None, mutating = False\<rparr>,
                                     group_trigger = QuerySubscribe\<rparr>])
             Complete)))
      :: ((nat QueryCache) + (unit, unit, unit) Revalidator, unit) obs)) = [10]"
  using consumer_results
    [of "Emit (Inr \<lparr>key = ''todos'', query = None, trigger = QuerySubscribe, params = JNull,
                 config = None, rv_data = None\<rparr>)
       (Emit (Inl [''todos'' \<mapsto> \<lparr>groupState = \<lparr>subscriberCount = 1, result = 10, evictionTimer = None, mutating = False\<rparr>,
                                 group_trigger = QuerySubscribe\<rparr>])
         (Emit (Inl [''todos'' \<mapsto> \<lparr>groupState = \<lparr>subscriberCount = 0, result = 20, evictionTimer = None, mutating = False\<rparr>,
                                   group_trigger = QueryUnsubscribe\<rparr>])
           (Emit (Inl [''other'' \<mapsto> \<lparr>groupState = \<lparr>subscriberCount = 1, result = 30, evictionTimer = None, mutating = False\<rparr>,
                                     group_trigger = QuerySubscribe\<rparr>])
             Complete)))
      :: ((nat QueryCache) + (unit, unit, unit) Revalidator, unit) obs"]
  by (simp add: withLatestFrom_def List.map_filter_def)

section \<open>Properties of the parameter trigger and the teardown\<close>

lemmas params_eval =
  paramsTrigger_def shareReplay_def pairwise_def distinctUntilChanged_def startWith_def
  json_equal_def params_revalidates_def from_list_def of_obs_def codec_eval

lemma query_finalize_first:
  "query_finalize sofar =
     (case emitted sofar of [] \<Rightarrow> [] | r # rest \<Rightarrow> [r\<lparr>trigger := QueryUnsubscribe\<rparr>])"
  by (cases "emitted sofar") (simp_all add: query_finalize_def shareReplay_late_def split: outcome.splits)

text \<open>
  C3: the teardown takes the first value that \<open>params$\<close> replays, and \<open>shareReplay()\<close>
  replays from the oldest. After the parameters \<open>a\<close> and then \<open>b\<close> the emitted
  \<open>query-unsubscribe\<close> carries the key of \<open>a\<close>, not the key of the last-known \<open>b\<close>.
\<close>

theorem teardown_unsubscribes_first_params:
  "query_finalize
     (paramsTrigger () (Emit (JString ''a'') (Wait 5 (Emit (JString ''b'') Silent))) ''todos'' ()) =
     [\<lparr>key = ''todos-a'', query = Some (), trigger = QueryUnsubscribe, params = JString ''a'',
       config = Some (), rv_data = None :: unit option\<rparr>] \<and>
   queryKeyAndParamsToCacheKey ''todos'' (JString ''b'') = Inr ''todos-b''"
  by (simp add: query_finalize_def shareReplay_late_def params_eval)

lemma no_params_subscribes:
  "fst (snd (parseInput dflt (NoParam f c))) = of_obs JNull \<and>
   fst (snd (parseInput dflt (WithParam (Static JNull) f c))) = of_obs JNull \<and>
   paramsTrigger queryConfig (of_obs JNull) name invoker =
     of_obs \<lparr>key = name, query = Some invoker, trigger = QuerySubscribe, params = JNull,
             config = Some queryConfig, rv_data = None\<rparr> \<and>
   queryKeyAndParamsToCacheKey name JNull = Inr name \<and>
   queryKeyAndParamsToCacheKey name JUndefined = Inr name"
  by (simp add: parseInput_def params_eval)

text \<open>
  C10: the call without a parameter argument and the call with an explicit \<open>null\<close> both
  emit one \<open>query-subscribe\<close> for the bare key, and the codec gives \<open>undefined\<close> the bare
  key as well. The call \<open>query('todos', undefined, fetchFn)\<close> addresses no group at all:
  \<open>paramsTrigger\<close> starts its stream with \<open>undefined\<close> and drops repetitions before it
  pairs the values, so the static \<open>undefined\<close> is dropped as a repetition, no
  \<open>query-subscribe\<close> is emitted and the fetch function is never run. An \<open>undefined\<close> that
  arrives later in a stream of parameters does subscribe to the bare key.
\<close>

theorem static_undefined_param_subscribes_nothing:
  "emitted (paramsTrigger ()
      (fst (snd (parseInput
         \<lparr>cfg_retries = RetriesNumber 3, cfg_retryDelay = DelayNumber 0,
          cfg_mutator = (\<lambda>d p. Plain d) :: nat \<Rightarrow> jsval \<Rightarrow> (nat, string) mutator_result\<rparr>
         (WithParam (Static JUndefined) () None))))
      ''todos'' ()) = ([] :: (unit, unit, unit) Revalidator list) \<and>
   emitted (paramsTrigger ()
      (fst (snd (parseInput
         \<lparr>cfg_retries = RetriesNumber 3, cfg_retryDelay = DelayNumber 0,
          cfg_mutator = (\<lambda>d p. Plain d) :: nat \<Rightarrow> jsval \<Rightarrow> (nat, string) mutator_result\<rparr>
         (NoParam () None))))
      ''todos'' ()) =
     [\<lparr>key = ''todos'', query = Some (), trigger = QuerySubscribe, params = JNull,
       config = Some (), rv_data = None :: unit option\<rparr>] \<and>
   emitted (paramsTrigger ()
      (fst (snd (parseInput
         \<lparr>cfg_retries = RetriesNumber 3, cfg_retryDelay = DelayNumber 0,
          cfg_mutator = (\<lambda>d p. Plain d) :: nat \<Rightarrow> jsval \<Rightarrow> (nat, string) mutator_result\<rparr>
         (WithParam (Static JNull) () None))))
      ''todos'' ()) =
     [\<lparr>key = ''todos'', query = Some (), trigger = QuerySubscribe, params = JNull,
       config = Some (), rv_data = None :: unit option\<rparr>] \<and>
   queryKeyAndParamsToCacheKey ''todos'' JUndefined = Inr ''todos'' \<and>
   emitted (paramsTrigger ()
      (fst (snd (parseInput
         \<lparr>cfg_retries = RetriesNumber 3, cfg_retryDelay = DelayNumber 0,
          cfg_mutator = (\<lambda>d p. Plain d) :: nat \<Rightarrow> jsval \<Rightarrow> (nat, string) mutator_result\<rparr>
         (WithParam (Stream (Emit (JString ''a'') (Wait 5 (Emit JUndefined Silent)))) () None))))
      ''todos'' ()) =
     [\<lparr>key = ''todos-a'', query = Some (), trigger = QuerySubscribe, params = JString ''a'',
       config = Some (), rv_data = None :: unit option\<rparr>,
      \<lparr>key = ''todos-a'', query = Some (), trigger = QueryUnsubscribe, params = JString ''a'',
       config = Some (), rv_data = None\<rparr>,
      \<lparr>key = ''todos'', query = Some (), trigger = QuerySubscribe, params = JUndefined,
       config = Some (), rv_data = None\<rparr>]"
  by (simp add: parseInput_def params_eval)



section \<open>The group state store\<close>

text \<open>
  Modelled from the spec: cache.ts, with the group state store and the revalidation bus
  (\<open>revalidate\<close>, \<open>queryCache\<close>), is not among the sources. The store of this section
  follows sections 3, 4.4 and 5 of the specification: its data, its transition table, the
  stale check and the single writer that applies the events of the bus in order.

  Modelled from the spec: the two options of the configuration that the store reads,
  \<open>staleTime\<close> (\<open>None\<close> is \<open>+infinity\<close>) and \<open>cacheTime\<close>.
\<close>

record StoreConfig =
  staleTime :: "nat option"
  cacheTime :: nat

text \<open>
  Modelled from the spec: a group is the \<open>GroupState\<close> of section 3, with the time its
  result was cached (for the stale check) and the data from before a mutation (for the
  rollback). A group with no cached result has the result \<open>None\<close>.
\<close>

record ('d, 'e) StoredGroup = "('d, 'e) QueryOutput_omit_mutate option GroupState" +
  cachedAt :: nat
  beforeMutation :: "'d option"

text \<open>
  Modelled from the spec: what the bus carries. Besides the \<open>Revalidator\<close> events, the
  states of a running invocation and the passing of time (for the eviction timer and the
  stale check) re-enter the bus as events of their own (section 5).
\<close>

datatype ('d, 'e) bus_item =
    Trigger "(unit, StoreConfig, ('d, 'e) mutation_data) Revalidator"
  | InvocationState string "('d, 'e) QueryOutput_omit_mutate"
  | TimePasses nat

text \<open>
  Modelled from the spec: the store. \<open>invoking\<close> says for which keys an invocation is
  running (the \<open>currently invoking\<close> of the transition table); \<open>active_runs\<close> counts the
  runs of the Invocation Engine that have been started for a key and have not yet delivered
  their terminal state, and \<open>started\<close> lists every run started, with its label.
\<close>

record ('d, 'e) Store =
  groups :: "string \<Rightarrow> ('d, 'e) StoredGroup option"
  invoking :: "string \<Rightarrow> bool"
  clock :: nat
  active_runs :: "string \<Rightarrow> nat"
  started :: "(string \<times> string) list"

definition empty_store :: "('d, 'e) Store" where
  "empty_store =
     \<lparr>groups = (\<lambda>k. None), invoking = (\<lambda>k. False), clock = 0, active_runs = (\<lambda>k. 0), started = []\<rparr>"

definition new_group :: "('d, 'e) StoredGroup" where
  "new_group =
     \<lparr>subscriberCount = 0, result = None, evictionTimer = None, mutating = False, cachedAt = 0,
      beforeMutation = None\<rparr>"

definition known_data :: "('d, 'e) StoredGroup \<Rightarrow> 'd option" where
  "known_data g = (case result g of None \<Rightarrow> None | Some r \<Rightarrow> data r)"

text \<open>
  Modelled from the spec: a cached result is fresh while \<open>now - cachedAt < staleTime\<close>;
  a terminal state has status \<open>success\<close> or \<open>error\<close>.
\<close>

definition stale :: "nat \<Rightarrow> ('d, 'e) StoredGroup \<Rightarrow> nat option \<Rightarrow> bool" where
  "stale now g st = (case st of None \<Rightarrow> False | Some t \<Rightarrow> \<not> (now - cachedAt g < t))"

definition terminal :: "('d, 'e) QueryOutput_omit_mutate \<Rightarrow> bool" where
  "terminal r = (status r = ''success'' \<or> status r = ''error'')"

text \<open>
  Modelled from the spec: starting an invocation under a label; the group shows the label
  with the last known data until the invocation delivers a state.
\<close>

definition start_invocation ::
  "string \<Rightarrow> string \<Rightarrow> ('d, 'e) StoredGroup \<Rightarrow> ('d, 'e) Store \<Rightarrow> ('d, 'e) Store" where
  "start_invocation k label g s =
     s\<lparr>groups := (groups s)
          (k := Some (g\<lparr>result := Some \<lparr>status = label, data = known_data g, error = None,
                                          retries = None\<rparr>\<rparr>)),
       invoking := (invoking s)(k := True),
       active_runs := (active_runs s)(k := Suc (active_runs s k)),
       started := started s @ [(k, label)]\<rparr>"

text \<open>
  Modelled from the spec: \<open>query-subscribe\<close> counts the subscriber, cancels a pending
  eviction timer and starts an invocation if there is no cached result or the result is
  stale, and no invocation is running; the label is \<open>loading\<close> without prior data and
  \<open>refreshing\<close> with it.
\<close>

definition joined_group :: "('d, 'e) Store \<Rightarrow> string \<Rightarrow> ('d, 'e) StoredGroup" where
  "joined_group s k =
     (let g = (case groups s k of None \<Rightarrow> new_group | Some g \<Rightarrow> g)
      in g\<lparr>subscriberCount := subscriberCount g + 1, evictionTimer := None\<rparr>)"

definition on_subscribe :: "string \<Rightarrow> StoreConfig \<Rightarrow> ('d, 'e) Store \<Rightarrow> ('d, 'e) Store" where
  "on_subscribe k cfg s =
     (let g = joined_group s k
      in if (result g = None \<or> stale (clock s) g (staleTime cfg)) \<and> \<not> invoking s k
         then start_invocation k (if known_data g = None then ''loading'' else ''refreshing'') g s
         else s\<lparr>groups := (groups s)(k := Some g)\<rparr>)"

text \<open>
  Modelled from the spec: \<open>query-unsubscribe\<close> discounts the subscriber and arms the
  eviction timer when none is left.
\<close>

definition on_unsubscribe :: "string \<Rightarrow> StoreConfig \<Rightarrow> ('d, 'e) Store \<Rightarrow> ('d, 'e) Store" where
  "on_unsubscribe k cfg s =
     (case groups s k of
        None \<Rightarrow> s
      | Some g \<Rightarrow>
          s\<lparr>groups := (groups s)
               (k := Some (g\<lparr>subscriberCount := subscriberCount g - 1,
                            evictionTimer := (if subscriberCount g - 1 = 0 then Some (cacheTime cfg)
                                              else evictionTimer g)\<rparr>))\<rparr>)"

text \<open>
  Modelled from the spec: \<open>interval\<close> and \<open>focus\<close> are dropped during a mutation, and
  otherwise start a \<open>refreshing\<close> invocation if none is running.
\<close>

definition on_refresh :: "string \<Rightarrow> ('d, 'e) Store \<Rightarrow> ('d, 'e) Store" where
  "on_refresh k s =
     (case groups s k of
        None \<Rightarrow> s
      | Some g \<Rightarrow>
          if mutating g then s
          else if invoking s k then s
          else start_invocation k ''refreshing'' g s)"

text \<open>Modelled from the spec: the three mutation triggers of the transition table.\<close>

definition on_mutate_optimistic :: "string \<Rightarrow> 'd option \<Rightarrow> ('d, 'e) Store \<Rightarrow> ('d, 'e) Store" where
  "on_mutate_optimistic k v s =
     (case groups s k of
        None \<Rightarrow> s
      | Some g \<Rightarrow>
          if mutating g then s
          else s\<lparr>groups := (groups s)
                    (k := Some (g\<lparr>mutating := True, beforeMutation := known_data g,
                                 result := Some \<lparr>status = ''mutating'', data = v, error = None,
                                                 retries = None\<rparr>\<rparr>))\<rparr>)"

definition on_mutate_success ::
  "('d \<Rightarrow> 'd \<Rightarrow> 'd) \<Rightarrow> string \<Rightarrow> 'd option \<Rightarrow> ('d, 'e) Store \<Rightarrow> ('d, 'e) Store" where
  "on_mutate_success merge_partial k v s =
     (case groups s k of
        None \<Rightarrow> s
      | Some g \<Rightarrow>
          s\<lparr>groups := (groups s)
               (k := Some (g\<lparr>mutating := False,
                            result := Some \<lparr>status = ''success'',
                                            data = (case (known_data g, v) of
                                                      (Some old, Some new) \<Rightarrow> Some (merge_partial old new)
                                                    | (_, new) \<Rightarrow> new),
                                            error = None, retries = None\<rparr>\<rparr>))\<rparr>)"

definition on_mutate_error :: "string \<Rightarrow> 'e option \<Rightarrow> ('d, 'e) Store \<Rightarrow> ('d, 'e) Store" where
  "on_mutate_error k err s =
     (case groups s k of
        None \<Rightarrow> s
      | Some g \<Rightarrow>
          s\<lparr>groups := (groups s)
               (k := Some (g\<lparr>mutating := False,
                            result := Some \<lparr>status = ''mutate-error'', data = beforeMutation g,
                                            error = err, retries = None\<rparr>\<rparr>))\<rparr>)"

text \<open>
  Modelled from the spec: a state of the running invocation becomes the result of the
  group; the terminal state ends the run. A state for a key with no running invocation
  has no run that could have produced it and changes nothing.
\<close>

definition on_invocation_state ::
  "string \<Rightarrow> ('d, 'e) QueryOutput_omit_mutate \<Rightarrow> ('d, 'e) Store \<Rightarrow> ('d, 'e) Store" where
  "on_invocation_state k r s =
     (if \<not> invoking s k then s
      else
        (let s' = (case groups s k of
                     None \<Rightarrow> s
                   | Some g \<Rightarrow>
                       s\<lparr>groups := (groups s)
                            (k := Some (g\<lparr>result := Some r,
                                         cachedAt := (if terminal r then clock s else cachedAt g)\<rparr>))\<rparr>)
         in if terminal r
            then s'\<lparr>invoking := (invoking s')(k := False),
                    active_runs := (active_runs s')(k := active_runs s' k - 1)\<rparr>
            else s'))"

text \<open>
  Modelled from the spec: when the eviction timer of a group fires and the group still has
  no subscriber, the group is deleted.
\<close>

definition on_time_passes :: "nat \<Rightarrow> ('d, 'e) Store \<Rightarrow> ('d, 'e) Store" where
  "on_time_passes d s =
     s\<lparr>clock := clock s + d,
       groups := (\<lambda>k. case groups s k of
                         None \<Rightarrow> None
                       | Some g \<Rightarrow>
                           (case evictionTimer g of
                              None \<Rightarrow> Some g
                            | Some t \<Rightarrow>
                                if t \<le> d
                                then (if subscriberCount g = 0 then None
                                      else Some (g\<lparr>evictionTimer := None\<rparr>))
                                else Some (g\<lparr>evictionTimer := Some (t - d)\<rparr>)))\<rparr>"

definition value_of :: "('d, 'e) mutation_data option \<Rightarrow> 'd option" where
  "value_of x = (case x of Some (NewValue v) \<Rightarrow> Some v | _ \<Rightarrow> None)"

definition rejection_of :: "('d, 'e) mutation_data option \<Rightarrow> 'e option" where
  "rejection_of x = (case x of Some (Rejection e) \<Rightarrow> Some e | _ \<Rightarrow> None)"

definition store_config :: "(unit, StoreConfig, 'x) Revalidator \<Rightarrow> StoreConfig" where
  "store_config r = (case config r of None \<Rightarrow> \<lparr>staleTime = Some 0, cacheTime = 0\<rparr> | Some c \<Rightarrow> c)"

text \<open>
  Modelled from the spec: the transition table of section 4.4; \<open>group-unsubscribe\<close> tears
  the group down at once. \<open>run_store\<close> applies the events of the bus in arrival order.
\<close>

definition apply_event ::
  "('d \<Rightarrow> 'd \<Rightarrow> 'd) \<Rightarrow> ('d, 'e) Store \<Rightarrow> ('d, 'e) bus_item \<Rightarrow> ('d, 'e) Store" where
  "apply_event merge_partial s ev =
     (case ev of
        Trigger r \<Rightarrow>
          (case trigger r of
             QuerySubscribe \<Rightarrow> on_subscribe (key r) (store_config r) s
           | QueryUnsubscribe \<Rightarrow> on_unsubscribe (key r) (store_config r) s
           | GroupUnsubscribe \<Rightarrow> s\<lparr>groups := (groups s)(key r := None)\<rparr>
           | Interval \<Rightarrow> on_refresh (key r) s
           | Focus \<Rightarrow> on_refresh (key r) s
           | MutateOptimistic \<Rightarrow> on_mutate_optimistic (key r) (value_of (rv_data r)) s
           | MutateSuccess \<Rightarrow> on_mutate_success merge_partial (key r) (value_of (rv_data r)) s
           | MutateError \<Rightarrow> on_mutate_error (key r) (rejection_of (rv_data r)) s)
      | InvocationState k st \<Rightarrow> on_invocation_state k st s
      | TimePasses d \<Rightarrow> on_time_passes d s)"

definition run_store ::
  "('d \<Rightarrow> 'd \<Rightarrow> 'd) \<Rightarrow> ('d, 'e) Store \<Rightarrow> ('d, 'e) bus_item list \<Rightarrow> ('d, 'e) Store" where
  "run_store merge_partial s evs = foldl (apply_event merge_partial) s evs"

definition subscribe_event :: "string \<Rightarrow> StoreConfig \<Rightarrow> (unit, StoreConfig, 'x) Revalidator" where
  "subscribe_event k cfg =
     \<lparr>key = k, query = Some (), trigger = QuerySubscribe, params = JUndefined, config = Some cfg,
      rv_data = None\<rparr>"

definition single_flight_inv :: "('d, 'e) Store \<Rightarrow> bool" where
  "single_flight_inv s = (\<forall>k. active_runs s k = (if invoking s k then 1 else 0))"







subsection \<open>At most one invocation per key\<close>

lemma start_invocation_flags:
  "invoking (start_invocation k l g s) = (invoking s)(k := True)"
  "active_runs (start_invocation k l g s) = (active_runs s)(k := Suc (active_runs s k))"
  "started (start_invocation k l g s) = started s @ [(k, l)]"
  by (simp_all add: start_invocation_def)

datatype flag_change = Unchanged | Started string string | Ended string

definition flags_changed :: "('d, 'e) Store \<Rightarrow> ('d, 'e) Store \<Rightarrow> flag_change \<Rightarrow> bool" where
  "flags_changed s s' c =
     (case c of
        Unchanged \<Rightarrow>
          invoking s' = invoking s \<and> active_runs s' = active_runs s \<and> started s' = started s
      | Started k l \<Rightarrow>
          \<not> invoking s k \<and> invoking s' = (invoking s)(k := True) \<and>
          active_runs s' = (active_runs s)(k := Suc (active_runs s k)) \<and>
          started s' = started s @ [(k, l)]
      | Ended k \<Rightarrow>
          invoking s k \<and> invoking s' = (invoking s)(k := False) \<and>
          active_runs s' = (active_runs s)(k := active_runs s k - 1) \<and>
          started s' = started s)"

lemma on_subscribe_flags:
  "\<exists>c. flags_changed s (on_subscribe k cfg s) c \<and> (invoking s k \<longrightarrow> c = Unchanged)"
proof (cases "(result (joined_group s k) = None \<or>
               stale (clock s) (joined_group s k) (staleTime cfg)) \<and> \<not> invoking s k")
  case True
  then have "on_subscribe k cfg s =
               start_invocation k (if known_data (joined_group s k) = None then ''loading'' else ''refreshing'')
                 (joined_group s k) s"
    by (simp add: on_subscribe_def Let_def)
  then have "flags_changed s (on_subscribe k cfg s)
               (Started k (if known_data (joined_group s k) = None then ''loading'' else ''refreshing''))"
    using True by (simp add: flags_changed_def start_invocation_flags)
  then show ?thesis using True by blast
next
  case False
  then have "on_subscribe k cfg s = s\<lparr>groups := (groups s)(k := Some (joined_group s k))\<rparr>"
    by (auto simp add: on_subscribe_def Let_def)
  then have "flags_changed s (on_subscribe k cfg s) Unchanged"
    by (simp add: flags_changed_def)
  then show ?thesis by blast
qed

lemma on_refresh_flags:
  "\<exists>c. flags_changed s (on_refresh k s) c \<and> (invoking s k \<longrightarrow> c = Unchanged)"
proof (cases "groups s k")
  case None
  then have "flags_changed s (on_refresh k s) Unchanged"
    by (simp add: on_refresh_def flags_changed_def)
  then show ?thesis by blast
next
  case (Some g)
  show ?thesis
  proof (cases "mutating g \<or> invoking s k")
    case True
    then have "flags_changed s (on_refresh k s) Unchanged"
      using Some by (auto simp add: on_refresh_def flags_changed_def)
    then show ?thesis by blast
  next
    case False
    then have "on_refresh k s = start_invocation k ''refreshing'' g s"
      using Some by (simp add: on_refresh_def)
    then have "flags_changed s (on_refresh k s) (Started k ''refreshing'')"
      using False by (simp add: flags_changed_def start_invocation_flags)
    then show ?thesis using False by blast
  qed
qed

lemma on_invocation_state_flags:
  "\<exists>c. flags_changed s (on_invocation_state k r s) c"
proof (cases "invoking s k \<and> terminal r")
  case True
  then have "flags_changed s (on_invocation_state k r s) (Ended k)"
    by (simp add: on_invocation_state_def flags_changed_def Let_def split: option.splits)
  then show ?thesis by blast
next
  case False
  then have "flags_changed s (on_invocation_state k r s) Unchanged"
    by (auto simp add: on_invocation_state_def flags_changed_def Let_def split: option.splits)
  then show ?thesis by blast
qed

lemma other_handlers_flags:
  "flags_changed s (on_unsubscribe k cfg s) Unchanged"
  "flags_changed s (s\<lparr>groups := gs\<rparr>) Unchanged"
  "flags_changed s (on_mutate_optimistic k v s) Unchanged"
  "flags_changed s (on_mutate_success mp k v s) Unchanged"
  "flags_changed s (on_mutate_error k err s) Unchanged"
  "flags_changed s (on_time_passes d s) Unchanged"
  by (simp_all add: flags_changed_def on_unsubscribe_def on_mutate_optimistic_def
      on_mutate_success_def on_mutate_error_def on_time_passes_def split: option.splits)

lemma unchanged_intro:
  "flags_changed s s' Unchanged \<Longrightarrow> \<exists>c. flags_changed s s' c \<and> (P \<longrightarrow> c = Unchanged)"
  by blast

lemma apply_trigger_flags:
  "\<exists>c. flags_changed s (apply_event mp s (Trigger r)) c \<and> (invoking s (key r) \<longrightarrow> c = Unchanged)"
proof (cases "trigger r")
  case QuerySubscribe
  then show ?thesis using on_subscribe_flags[of s "key r" "store_config r"]
    by (simp add: apply_event_def)
next
  case QueryUnsubscribe
  then have "apply_event mp s (Trigger r) = on_unsubscribe (key r) (store_config r) s"
    by (simp add: apply_event_def)
  then show ?thesis by (simp only: unchanged_intro other_handlers_flags)
next
  case GroupUnsubscribe
  then have "apply_event mp s (Trigger r) = s\<lparr>groups := (groups s)(key r := None)\<rparr>"
    by (simp add: apply_event_def)
  then show ?thesis by (simp only: unchanged_intro other_handlers_flags)
next
  case Interval
  then show ?thesis using on_refresh_flags[of s "key r"]
    by (simp add: apply_event_def)
next
  case Focus
  then show ?thesis using on_refresh_flags[of s "key r"]
    by (simp add: apply_event_def)
next
  case MutateOptimistic
  then have "apply_event mp s (Trigger r) = on_mutate_optimistic (key r) (value_of (rv_data r)) s"
    by (simp add: apply_event_def)
  then show ?thesis by (simp only: unchanged_intro other_handlers_flags)
next
  case MutateSuccess
  then have "apply_event mp s (Trigger r) = on_mutate_success mp (key r) (value_of (rv_data r)) s"
    by (simp add: apply_event_def)
  then show ?thesis by (simp only: unchanged_intro other_handlers_flags)
next
  case MutateError
  then have "apply_event mp s (Trigger r) = on_mutate_error (key r) (rejection_of (rv_data r)) s"
    by (simp add: apply_event_def)
  then show ?thesis by (simp only: unchanged_intro other_handlers_flags)
qed

lemma apply_event_flags: "\<exists>c. flags_changed s (apply_event mp s ev) c"
proof (cases ev)
  case (Trigger r)
  then show ?thesis using apply_trigger_flags[of s mp r] by blast
next
  case (InvocationState k st)
  then show ?thesis using on_invocation_state_flags[of s k st]
    by (simp add: apply_event_def)
next
  case (TimePasses d)
  then have "apply_event mp s ev = on_time_passes d s" by (simp add: apply_event_def)
  then show ?thesis using other_handlers_flags(6)[of s d] by auto
qed

lemma single_flight_inv_step:
  assumes "single_flight_inv s"
  shows "single_flight_inv (apply_event mp s ev)"
proof -
  obtain c where c: "flags_changed s (apply_event mp s ev) c"
    using apply_event_flags by blast
  show ?thesis
  proof (cases c)
    case Unchanged
    then show ?thesis using c assms by (simp add: flags_changed_def single_flight_inv_def)
  next
    case (Started k l)
    then show ?thesis using c assms by (simp add: flags_changed_def single_flight_inv_def)
  next
    case (Ended k)
    then show ?thesis using c assms by (simp add: flags_changed_def single_flight_inv_def)
  qed
qed

lemma single_flight_inv_run:
  "single_flight_inv s \<Longrightarrow> single_flight_inv (run_store mp s evs)"
  unfolding run_store_def
  by (induction evs arbitrary: s) (simp_all add: single_flight_inv_step)

lemma single_flight_inv_empty: "single_flight_inv empty_store"
  by (simp add: single_flight_inv_def empty_store_def)

lemma run_store_snoc:
  "run_store mp s (evs @ [ev]) = apply_event mp (run_store mp s evs) ev"
  by (simp add: run_store_def)

lemma apply_subscribe_event:
  "apply_event mp s (Trigger (subscribe_event k cfg)) = on_subscribe k cfg s"
  by (simp add: apply_event_def subscribe_event_def store_config_def)

lemma first_subscriber:
  "on_subscribe k cfg empty_store =
     start_invocation k ''loading'' (new_group\<lparr>subscriberCount := 1\<rparr>) empty_store"
  by (simp add: on_subscribe_def joined_group_def Let_def empty_store_def new_group_def known_data_def)

lemma later_subscriber:
  "invoking s k \<Longrightarrow> on_subscribe k cfg s = s\<lparr>groups := (groups s)(k := Some (joined_group s k))\<rparr>"
  by (simp add: on_subscribe_def Let_def)

definition first_load :: "string \<Rightarrow> nat \<Rightarrow> ('d, 'e) Store \<Rightarrow> bool" where
  "first_load k n s =
     (started s = [(k, ''loading'')] \<and> invoking s k \<and>
      (\<exists>g. groups s k = Some g \<and> subscriberCount g = n))"

lemma subscribers_share_first_load:
  "first_load k (Suc n) (run_store mp empty_store (replicate (Suc n) (Trigger (subscribe_event k cfg))))"
proof (induction n)
  case 0
  have "run_store mp empty_store (replicate (Suc 0) (Trigger (subscribe_event k cfg))) =
          on_subscribe k cfg empty_store"
    by (simp add: run_store_def apply_subscribe_event)
  also have "\<dots> = start_invocation k ''loading'' (new_group\<lparr>subscriberCount := 1\<rparr>) empty_store"
    by (rule first_subscriber)
  finally have e: "run_store mp empty_store (replicate (Suc 0) (Trigger (subscribe_event k cfg))) =
          start_invocation k ''loading'' (new_group\<lparr>subscriberCount := 1\<rparr>) empty_store" .
  show ?case unfolding e
    by (simp add: first_load_def start_invocation_def empty_store_def)
next
  case (Suc n)
  let ?ev = "Trigger (subscribe_event k cfg) :: ('a, 'b) bus_item"
  let ?s = "run_store mp empty_store (replicate (Suc n) ?ev)"
  have rep: "replicate (Suc (Suc n)) ?ev = replicate (Suc n) ?ev @ [?ev]"
    by (simp add: replicate_append_same)
  have step: "apply_event mp ?s ?ev = on_subscribe k cfg ?s"
    by (rule apply_subscribe_event)
  from Suc obtain g where inv: "invoking ?s k" and st: "started ?s = [(k, ''loading'')]"
    and g: "groups ?s k = Some g" and n: "subscriberCount g = Suc n"
    unfolding first_load_def by blast
  have "apply_event mp ?s ?ev = ?s\<lparr>groups := (groups ?s)(k := Some (joined_group ?s k))\<rparr>"
    unfolding step using inv by (rule later_subscriber)
  moreover have "subscriberCount (joined_group ?s k) = Suc (Suc n)"
    using g n by (simp add: joined_group_def)
  ultimately have "first_load k (Suc (Suc n)) (apply_event mp ?s ?ev)"
    using inv st by (simp add: first_load_def)
  then show ?case unfolding rep run_store_snoc .
qed

lemma first_load_terminal:
  assumes "first_load k n s" and "terminal st"
  shows "started (on_invocation_state k st s) = [(k, ''loading'')] \<and>
         \<not> invoking (on_invocation_state k st s) k \<and>
         (\<exists>g. groups (on_invocation_state k st s) k = Some g \<and> subscriberCount g = n \<and>
              result g = Some st)"
proof -
  from assms(1) obtain g where inv: "invoking s k" and st: "started s = [(k, ''loading'')]"
    and g: "groups s k = Some g" and n: "subscriberCount g = n"
    unfolding first_load_def by blast
  show ?thesis
    using inv st g n assms(2) by (simp add: on_invocation_state_def Let_def)
qed

text \<open>
  C2: in every state that the store reaches from the empty store, at most one run of the
  Invocation Engine is active per key; a trigger that arrives for a key while an
  invocation for that key is running starts no run; and \<open>n + 1\<close> subscribers to one key
  share one invocation, labelled \<open>loading\<close>, whose terminal state becomes the result of
  the one group that they all read.
\<close>

theorem single_flight:
  fixes mp :: "'d \<Rightarrow> 'd \<Rightarrow> 'd" and st :: "('d, 'e) QueryOutput_omit_mutate"
  shows
  "(\<forall>k. active_runs (run_store mp empty_store evs) k \<le> 1) \<and>
   (\<forall>r :: (unit, StoreConfig, ('d, 'e) mutation_data) Revalidator.
        invoking (run_store mp empty_store evs) (key r) \<longrightarrow>
        started (apply_event mp (run_store mp empty_store evs) (Trigger r)) =
          started (run_store mp empty_store evs) \<and>
        active_runs (apply_event mp (run_store mp empty_store evs) (Trigger r)) =
          active_runs (run_store mp empty_store evs)) \<and>
   (terminal st \<longrightarrow>
      started (run_store mp empty_store
                 (replicate (Suc n) (Trigger (subscribe_event k cfg)) @ [InvocationState k st])) =
        [(k, ''loading'')] \<and>
      \<not> invoking (run_store mp empty_store
                    (replicate (Suc n) (Trigger (subscribe_event k cfg)) @ [InvocationState k st])) k \<and>
      (\<exists>g. groups (run_store mp empty_store
                     (replicate (Suc n) (Trigger (subscribe_event k cfg)) @ [InvocationState k st])) k =
              Some g \<and>
           subscriberCount g = Suc n \<and> result g = Some st))"
proof (intro conjI allI impI)
  fix k'
  have "single_flight_inv (run_store mp empty_store evs)"
    using single_flight_inv_empty by (rule single_flight_inv_run)
  then show "active_runs (run_store mp empty_store evs) k' \<le> 1"
    by (simp add: single_flight_inv_def)
next
  fix r :: "(unit, StoreConfig, ('d, 'e) mutation_data) Revalidator"
  assume a: "invoking (run_store mp empty_store evs) (key r)"
  obtain c where c: "flags_changed (run_store mp empty_store evs)
                       (apply_event mp (run_store mp empty_store evs) (Trigger r)) c"
    and u: "invoking (run_store mp empty_store evs) (key r) \<longrightarrow> c = Unchanged"
    using apply_trigger_flags by blast
  have cu: "c = Unchanged" using u a by simp
  show "started (apply_event mp (run_store mp empty_store evs) (Trigger r)) =
          started (run_store mp empty_store evs)"
    using c unfolding cu by (simp add: flags_changed_def)
  show "active_runs (apply_event mp (run_store mp empty_store evs) (Trigger r)) =
          active_runs (run_store mp empty_store evs)"
    using c unfolding cu by (simp add: flags_changed_def)
next
  assume t: "terminal st"
  let ?s = "run_store mp empty_store (replicate (Suc n) (Trigger (subscribe_event k cfg)))"
  have fl: "first_load k (Suc n) ?s" by (rule subscribers_share_first_load)
  have run: "run_store mp empty_store
               (replicate (Suc n) (Trigger (subscribe_event k cfg)) @ [InvocationState k st]) =
             on_invocation_state k st ?s"
    unfolding run_store_snoc by (simp add: apply_event_def)
  note fin = first_load_terminal[OF fl t]
  show "started (run_store mp empty_store
                 (replicate (Suc n) (Trigger (subscribe_event k cfg)) @ [InvocationState k st])) =
        [(k, ''loading'')]"
    unfolding run using fin by blast
  show "\<not> invoking (run_store mp empty_store
                    (replicate (Suc n) (Trigger (subscribe_event k cfg)) @ [InvocationState k st])) k"
    unfolding run using fin by blast
  show "\<exists>g. groups (run_store mp empty_store
                     (replicate (Suc n) (Trigger (subscribe_event k cfg)) @ [InvocationState k st])) k =
              Some g \<and>
           subscriberCount g = Suc n \<and> result g = Some st"
    unfolding run using fin by blast
qed

theorem single_flight_witness:
  "invoking (run_store (\<lambda>a b. b) (empty_store :: (nat, string) Store)
              [Trigger (subscribe_event ''todos'' \<lparr>staleTime = Some 0, cacheTime = 5\<rparr>)])
     ''todos'' \<and>
   terminal \<lparr>status = ''success'', data = Some (3 :: nat), error = None :: string option, retries = None\<rparr> \<and>
   active_runs (run_store (\<lambda>a b. b) (empty_store :: (nat, string) Store)
              [Trigger (subscribe_event ''todos'' \<lparr>staleTime = Some 0, cacheTime = 5\<rparr>)]) ''todos'' \<le> 1 \<and>
   started (apply_event (\<lambda>a b. b)
              (run_store (\<lambda>a b. b) (empty_store :: (nat, string) Store)
                 [Trigger (subscribe_event ''todos'' \<lparr>staleTime = Some 0, cacheTime = 5\<rparr>)])
              (Trigger \<lparr>key = ''todos'', query = None, trigger = Focus, params = JUndefined,
                        config = None, rv_data = None\<rparr>)) =
     started (run_store (\<lambda>a b. b) (empty_store :: (nat, string) Store)
                [Trigger (subscribe_event ''todos'' \<lparr>staleTime = Some 0, cacheTime = 5\<rparr>)]) \<and>
   started (run_store (\<lambda>a b. b) (empty_store :: (nat, string) Store)
              (replicate (Suc 1) (Trigger (subscribe_event ''todos'' \<lparr>staleTime = Some 0, cacheTime = 5\<rparr>)) @
               [InvocationState ''todos''
                  \<lparr>status = ''success'', data = Some 3, error = None, retries = None\<rparr>])) =
     [(''todos'', ''loading'')]"
proof -
  let ?evs = "[Trigger (subscribe_event ''todos'' \<lparr>staleTime = Some 0, cacheTime = 5\<rparr>)]
                :: (nat, string) bus_item list"
  let ?r = "\<lparr>key = ''todos'', query = None, trigger = Focus, params = JUndefined, config = None,
             rv_data = None :: (nat, string) mutation_data option\<rparr>
            :: (unit, StoreConfig, (nat, string) mutation_data) Revalidator"
  let ?st = "\<lparr>status = ''success'', data = Some (3 :: nat), error = None :: string option, retries = None\<rparr>"
  have h0: "invoking (run_store (\<lambda>a b. b) (empty_store :: (nat, string) Store) ?evs) ''todos''"
    by (simp add: run_store_def apply_subscribe_event first_subscriber start_invocation_flags)
  then have h1: "invoking (run_store (\<lambda>a b. b) (empty_store :: (nat, string) Store) ?evs) (key ?r)"
    by simp
  have h2: "terminal ?st" by (simp add: terminal_def)
  note t = single_flight[of "\<lambda>a b. b" ?evs ?st 1 "''todos''" "\<lparr>staleTime = Some 0, cacheTime = 5\<rparr>"]
  note t1 = t[THEN conjunct1, rule_format, of "''todos''"]
  note t2 = t[THEN conjunct2, THEN conjunct1, rule_format, of ?r, OF h1, THEN conjunct1]
  note t3 = t[THEN conjunct2, THEN conjunct2, rule_format, OF h2, THEN conjunct1]
  show ?thesis
    apply (intro conjI)
        apply (rule h0)
       apply (rule h2)
      apply (rule t1)
     apply (rule t2)
    apply (rule t3)
    done
qed

subsection \<open>The retry sequence of a fetch that always fails\<close>







end
